theory Spec2Isabelle
  imports Main
begin

section \<open>Chat statistics: the data model\<close>

text \<open>
  The development embeds \<^verbatim>\<open>src/chat_statistics/stats.py\<close>, the class
  \<^verbatim>\<open>ChatStatistics\<close>.

  A Python \<^verbatim>\<open>str\<close> is a sequence of Unicode code points, so it is modelled as a list
  of code points and not as a byte string: the Persian question mark U+061F is one
  element, as it is for \<^verbatim>\<open>in\<close> and for iteration in Python.
\<close>

type_synonym pystr = "nat list"

definition ustr :: "string \<Rightarrow> pystr" where
  "ustr s = map of_char s"

text \<open>
  The exported \<^verbatim>\<open>text\<close> of a message is either a string or a list whose items are
  strings or JSON objects. An object is a dictionary; only its key \<^verbatim>\<open>'text'\<close> is ever
  read, and its value there is a string.
\<close>

datatype fragment = RawString pystr | Annotated "pystr \<rightharpoonup> pystr"

datatype text_value = PlainText pystr | FragmentedText "fragment list"

text \<open>
  A key of a message that is read with \<^verbatim>\<open>msg['from']\<close> raises \<^verbatim>\<open>KeyError\<close> when the
  key is missing; a present key may hold JSON \<^verbatim>\<open>null\<close>, which is Python's
  \<^verbatim>\<open>None\<close> (the inner \<open>option\<close>).
\<close>

datatype 'a field = Absent | Present 'a

type_synonym sender = "pystr option"

text \<open>
  The keys \<^verbatim>\<open>id\<close> and \<^verbatim>\<open>text\<close> are present in every message of an export.
  \<^verbatim>\<open>reply_to_message_id\<close> is only read through \<^verbatim>\<open>msg.get\<close>, for which a missing
  key and \<^verbatim>\<open>null\<close> are the same value \<^verbatim>\<open>None\<close>.
\<close>

record message =
  msg_id :: int
  msg_from :: "sender field"
  reply_to_message_id :: "int option"
  msg_text :: text_value

datatype error = KeyError pystr | ValueError pystr

text \<open>
  The libraries the class calls are outside the repository: hazm's \<^verbatim>\<open>Normalizer.normalize\<close>,
  \<^verbatim>\<open>word_tokenize\<close> and \<^verbatim>\<open>sent_tokenize\<close>, \<^verbatim>\<open>arabic_reshaper.reshape\<close>, and the
  \<^verbatim>\<open>WordCloud\<close> class. So is the constant \<^verbatim>\<open>DATA_DIR\<close> of \<^verbatim>\<open>src.data\<close>. Every
  function below takes them as a parameter. A path is the list of its components.

  \<^verbatim>\<open>WordCloud(width, height, font_path, background_color).generate(text)\<close> either
  returns the laid-out cloud or raises; \<open>WordCloud_generate\<close> gives \<open>Some e\<close> when the call
  raises \<open>e\<close> and \<open>None\<close> when it returns.
\<close>

type_synonym path = "pystr list"

record wordcloud_args =
  wc_width :: nat
  wc_height :: nat
  wc_font_path :: path
  wc_background_color :: pystr

record libs =
  normalizer_normalize :: "pystr \<Rightarrow> pystr"
  word_tokenize :: "pystr \<Rightarrow> pystr list"
  sent_tokenize :: "pystr \<Rightarrow> pystr list"
  arabic_reshaper_reshape :: "pystr \<Rightarrow> pystr"
  WordCloud_generate :: "wordcloud_args \<Rightarrow> pystr \<Rightarrow> error option"
  DATA_DIR :: path

text \<open>The object: \<^verbatim>\<open>self.chat_data['messages']\<close> and \<^verbatim>\<open>self.stop_words\<close>.\<close>

record chat_statistics =
  chat_data :: "message list"
  stop_words :: "pystr set"

section \<open>The constructor\<close>

text \<open>
  \<^verbatim>\<open>str.strip\<close> without argument removes leading and trailing characters for which
  \<^verbatim>\<open>str.isspace\<close> holds.
\<close>

definition py_isspace :: "nat \<Rightarrow> bool" where
  "py_isspace c \<longleftrightarrow>
     (9 \<le> c \<and> c \<le> 13) \<or> (28 \<le> c \<and> c \<le> 32) \<or> c = 133 \<or> c = 160 \<or> c = 5760 \<or>
     (8192 \<le> c \<and> c \<le> 8202) \<or> c = 8232 \<or> c = 8233 \<or> c = 8239 \<or> c = 8287 \<or> c = 12288"

definition strip :: "pystr \<Rightarrow> pystr" where
  "strip s = rev (dropWhile py_isspace (rev (dropWhile py_isspace s)))"

text \<open>
  \<^verbatim>\<open>__init__\<close>, lines 17 to 32: \<open>messages\<close> is the parsed \<^verbatim>\<open>messages\<close> list of the
  chat file and \<open>lines\<close> is \<^verbatim>\<open>readlines()\<close> of the stopword file.
\<close>

definition init :: "libs \<Rightarrow> message list \<Rightarrow> pystr list \<Rightarrow> chat_statistics" where
  "init L messages lines =
     \<lparr>chat_data = messages,
      stop_words = set (map (normalizer_normalize L) (map strip lines))\<rparr>"

section \<open>Text reconstruction\<close>

text \<open>
  \<^verbatim>\<open>for sub_msg in sub_messages\<close>: iterating a list yields its items, iterating a
  string yields its characters, each a string of length one.
\<close>

fun iter_sub_messages :: "text_value \<Rightarrow> fragment list" where
  "iter_sub_messages (PlainText s) = map (\<lambda>c. RawString [c]) s"
| "iter_sub_messages (FragmentedText fs) = fs"

text \<open>The loop body, lines 38 to 41; a dictionary without \<^verbatim>\<open>'text'\<close> falls through.\<close>

fun rebuild_step :: "pystr \<Rightarrow> fragment \<Rightarrow> pystr" where
  "rebuild_step acc (RawString s) = acc @ s"
| "rebuild_step acc (Annotated d) =
     (case d (ustr ''text'') of Some t \<Rightarrow> acc @ t | None \<Rightarrow> acc)"

fun rebuild_loop :: "pystr \<Rightarrow> fragment list \<Rightarrow> pystr" where
  "rebuild_loop acc [] = acc"
| "rebuild_loop acc (sub_msg # rest) = rebuild_loop (rebuild_step acc sub_msg) rest"

definition rebuild_msg :: "text_value \<Rightarrow> pystr" where
  "rebuild_msg sub_messages = rebuild_loop [] (iter_sub_messages sub_messages)"

section \<open>Question detection\<close>

definition question_mark :: nat where
  "question_mark = 63"

definition persian_question_mark :: nat where
  "persian_question_mark = 1567"

text \<open>
  The loop of lines 54 to 58. The function returns \<^verbatim>\<open>True\<close> from inside the loop and
  has no other \<^verbatim>\<open>return\<close>: falling off the end gives \<^verbatim>\<open>None\<close>. The result is
  \<open>Some True\<close> for \<^verbatim>\<open>True\<close> and \<open>None\<close> for \<^verbatim>\<open>None\<close>. A one-character string is
  \<^verbatim>\<open>in\<close> a string when the character occurs in it.
\<close>

fun sentences_loop :: "pystr list \<Rightarrow> bool option" where
  "sentences_loop [] = None"
| "sentences_loop (sentence # sentences) =
     (if question_mark \<notin> set sentence \<and> persian_question_mark \<notin> set sentence
      then sentences_loop sentences
      else Some True)"

text \<open>
  \<^verbatim>\<open>msg_has_question\<close> assigns the rebuilt string to \<^verbatim>\<open>msg['text']\<close> when the text is
  not a string, so it returns the message too.
\<close>

definition msg_has_question :: "libs \<Rightarrow> message \<Rightarrow> bool option \<times> message" where
  "msg_has_question L msg =
     (case msg_text msg of
        PlainText s \<Rightarrow> (sentences_loop (sent_tokenize L s), msg)
      | FragmentedText fs \<Rightarrow>
          (let s = rebuild_msg (FragmentedText fs)
           in (sentences_loop (sent_tokenize L s), msg\<lparr>msg_text := PlainText s\<rparr>)))"

text \<open>Python's truth value of the result: \<^verbatim>\<open>None\<close> and \<^verbatim>\<open>False\<close> are false.\<close>

definition truthy :: "bool option \<Rightarrow> bool" where
  "truthy r = (r = Some True)"

section \<open>The responder ranking\<close>

text \<open>
  \<^verbatim>\<open>is_question = defaultdict(bool)\<close>: reading a missing key stores \<^verbatim>\<open>False\<close> under
  it and returns \<^verbatim>\<open>False\<close>.
\<close>

type_synonym question_index = "int \<rightharpoonup> bool"

definition defaultdict_getitem :: "question_index \<Rightarrow> int \<Rightarrow> bool \<times> question_index" where
  "defaultdict_getitem d k =
     (case d k of Some v \<Rightarrow> (v, d) | None \<Rightarrow> (False, d(k \<mapsto> False)))"

text \<open>The first loop, lines 68 to 70, over the messages; it updates them in place.\<close>

fun mark_questions ::
  "libs \<Rightarrow> message list \<Rightarrow> question_index \<Rightarrow> message list \<times> question_index" where
  "mark_questions L [] is_question = ([], is_question)"
| "mark_questions L (msg # msgs) is_question =
     (let (r, msg') = msg_has_question L msg;
          is_question' = (if truthy r then is_question(msg_id msg' \<mapsto> True) else is_question);
          (msgs', is_question'') = mark_questions L msgs is_question'
      in (msg' # msgs', is_question''))"

text \<open>
  The second loop, lines 75 to 81. \<^verbatim>\<open>not msg.get('reply_to_message_id')\<close> holds for
  \<^verbatim>\<open>None\<close> and for \<open>0\<close>.
\<close>

fun collect_users ::
  "message list \<Rightarrow> question_index \<Rightarrow> sender list \<Rightarrow> error + sender list" where
  "collect_users [] is_question users = Inr users"
| "collect_users (msg # msgs) is_question users =
     (case reply_to_message_id msg of
        None \<Rightarrow> collect_users msgs is_question users
      | Some r \<Rightarrow>
          if r = 0 then collect_users msgs is_question users
          else
            (let (v, is_question') = defaultdict_getitem is_question r
             in if v = False then collect_users msgs is_question' users
                else
                  (case msg_from msg of
                     Absent \<Rightarrow> Inl (KeyError (ustr ''from''))
                   | Present s \<Rightarrow> collect_users msgs is_question' (users @ [s]))))"

text \<open>
  \<^verbatim>\<open>collections.Counter\<close> is a dictionary, which keeps its keys in the order of their
  first insertion: an association list with distinct keys.
\<close>

fun counter_add :: "'a \<Rightarrow> ('a \<times> nat) list \<Rightarrow> ('a \<times> nat) list" where
  "counter_add x [] = [(x, 1)]"
| "counter_add x ((k, c) # kcs) =
     (if k = x then (k, c + 1) # kcs else (k, c) # counter_add x kcs)"

fun counter_update :: "('a \<times> nat) list \<Rightarrow> 'a list \<Rightarrow> ('a \<times> nat) list" where
  "counter_update d [] = d"
| "counter_update d (x # xs) = counter_update (counter_add x d) xs"

definition Counter :: "'a list \<Rightarrow> ('a \<times> nat) list" where
  "Counter xs = counter_update [] xs"

text \<open>
  \<^verbatim>\<open>most_common(n)\<close> is \<^verbatim>\<open>heapq.nlargest(n, items, key=count)\<close>, which is
  \<^verbatim>\<open>sorted(items, key=count, reverse=True)[:n]\<close> for \<open>n \<ge> 0\<close> and the empty list for
  a negative \<open>n\<close>; the sort is stable, so items with equal counts keep the order of the
  dictionary.
\<close>

definition most_common :: "('a \<times> nat) list \<Rightarrow> int \<Rightarrow> ('a \<times> nat) list" where
  "most_common items n = take (nat n) (sort_key (\<lambda>kc. - int (snd kc)) items)"

text \<open>\<^verbatim>\<open>dict(pairs)\<close>: a later pair with a key already present replaces its value.\<close>

fun dict_setitem :: "'a \<Rightarrow> 'b \<Rightarrow> ('a \<times> 'b) list \<Rightarrow> ('a \<times> 'b) list" where
  "dict_setitem k v [] = [(k, v)]"
| "dict_setitem k v ((k', v') # kvs) =
     (if k' = k then (k', v) # kvs else (k', v') # dict_setitem k v kvs)"

fun dict_update :: "('a \<times> 'b) list \<Rightarrow> ('a \<times> 'b) list \<Rightarrow> ('a \<times> 'b) list" where
  "dict_update d [] = d"
| "dict_update d ((k, v) # kvs) = dict_update (dict_setitem k v d) kvs"

definition dict :: "('a \<times> 'b) list \<Rightarrow> ('a \<times> 'b) list" where
  "dict pairs = dict_update [] pairs"

text \<open>
  \<^verbatim>\<open>get_top_users\<close>, lines 60 to 83. It returns the dictionary or the exception, and
  the object, whose messages the first loop has rewritten.
\<close>

definition get_top_users ::
  "libs \<Rightarrow> chat_statistics \<Rightarrow> int \<Rightarrow> (error + (sender \<times> nat) list) \<times> chat_statistics" where
  "get_top_users L self top_n =
     (let (msgs', is_question) = mark_questions L (chat_data self) Map.empty;
          self' = self\<lparr>chat_data := msgs'\<rparr>
      in (case collect_users msgs' is_question [] of
            Inl e \<Rightarrow> (Inl e, self')
          | Inr users \<Rightarrow> (Inr (dict (most_common (Counter users) top_n)), self')))"

section \<open>The word cloud\<close>

text \<open>\<^verbatim>\<open>sep.join(tokens)\<close>.\<close>

fun join :: "pystr \<Rightarrow> pystr list \<Rightarrow> pystr" where
  "join sep [] = []"
| "join sep [t] = t"
| "join sep (t # u # ts) = t @ sep @ join sep (u # ts)"

text \<open>
  The loop of lines 93 to 97: \<^verbatim>\<open>type(msg['text']) is str\<close> selects the messages
  whose text is a string at the time of the call.
\<close>

fun text_content_loop :: "libs \<Rightarrow> pystr set \<Rightarrow> message list \<Rightarrow> pystr \<Rightarrow> pystr" where
  "text_content_loop L sw [] text_content = text_content"
| "text_content_loop L sw (msg # msgs) text_content =
     (case msg_text msg of
        PlainText s \<Rightarrow>
          (let tokens = word_tokenize L s;
               tokens = filter (\<lambda>item. item \<notin> sw) tokens
           in text_content_loop L sw msgs (text_content @ ustr '' '' @ join (ustr '' '') tokens))
      | FragmentedText fs \<Rightarrow> text_content_loop L sw msgs text_content)"

text \<open>
  A run of \<^verbatim>\<open>generate_word_cloud\<close>, lines 85 to 113: the arguments of
  \<^verbatim>\<open>WordCloud(...)\<close>, the text given to \<^verbatim>\<open>generate\<close> on line 110, and how the run
  ends. The function has no \<^verbatim>\<open>raise\<close> of its own and no condition before the call of
  \<^verbatim>\<open>generate\<close>. When that call raises, the exception ends the run and line 113 is not
  reached (\<open>Inl\<close>); when it returns, \<^verbatim>\<open>to_file\<close> is called with the file name
  (\<open>Inr\<close>).
\<close>

record wordcloud_run =
  wc_args :: wordcloud_args
  wc_generate_text :: pystr
  wc_result :: "error + path"

definition generate_word_cloud ::
  "libs \<Rightarrow> chat_statistics \<Rightarrow> path \<Rightarrow> wordcloud_run \<times> chat_statistics" where
  "generate_word_cloud L self output_dir =
     (let text_content = text_content_loop L (stop_words self) (chat_data self) [];
          text_content = normalizer_normalize L text_content;
          text_content = arabic_reshaper_reshape L text_content;
          args = \<lparr>wc_width = 1200, wc_height = 1200,
                  wc_font_path = DATA_DIR L @ [ustr ''BHoma.ttf''],
                  wc_background_color = ustr ''white''\<rparr>
      in (\<lparr>wc_args = args,
           wc_generate_text = text_content,
           wc_result =
             (case WordCloud_generate L args text_content of
                Some e \<Rightarrow> Inl e
              | None \<Rightarrow> Inr (output_dir @ [ustr ''wordcloud.png'']))\<rparr>, self))"

section \<open>Stand-ins for the libraries\<close>

text \<open>
  A concrete run needs concrete library functions. The stand-ins do, on the inputs used
  below, what the libraries do there: the normaliser replaces the Arabic letters kaf
  (U+0643) and yeh (U+064A) by the Persian ones (U+06A9, U+06CC), as hazm's character
  translation does; the word tokeniser splits at spaces; the sentence tokeniser returns a
  non-empty text as one sentence and no sentence for the empty text; reshaping leaves the
  text as it is; the image generator raises the \<^verbatim>\<open>ValueError\<close> of the wordcloud library
  on a text that has no character other than white space, and returns on the other texts.
\<close>

definition sample_normalize :: "pystr \<Rightarrow> pystr" where
  "sample_normalize s = map (\<lambda>c. if c = 1603 then 1705 else if c = 1610 then 1740 else c) s"

fun split_spaces :: "pystr \<Rightarrow> pystr \<Rightarrow> pystr list" where
  "split_spaces word [] = (if word = [] then [] else [word])"
| "split_spaces word (c # cs) =
     (if c = 32 then (if word = [] then split_spaces [] cs else word # split_spaces [] cs)
      else split_spaces (word @ [c]) cs)"

definition sample_sent_tokenize :: "pystr \<Rightarrow> pystr list" where
  "sample_sent_tokenize s = (if s = [] then [] else [s])"

definition no_words_error :: error where
  "no_words_error = ValueError (ustr ''We need at least 1 word to plot a word cloud, got 0.'')"

definition sample_WordCloud_generate :: "wordcloud_args \<Rightarrow> pystr \<Rightarrow> error option" where
  "sample_WordCloud_generate args text_content =
     (if filter (\<lambda>c. \<not> py_isspace c) text_content = [] then Some no_words_error else None)"

definition sample_libs :: libs where
  "sample_libs =
     \<lparr>normalizer_normalize = sample_normalize,
      word_tokenize = split_spaces [],
      sent_tokenize = sample_sent_tokenize,
      arabic_reshaper_reshape = (\<lambda>s. s),
      WordCloud_generate = sample_WordCloud_generate,
      DATA_DIR = [ustr ''src'', ustr ''data'']\<rparr>"

text \<open>
  A chat of seven messages. Message 1 asks a question; 2, 3 and 6 reply to it; 6 asks a
  question too, and 7 replies to it; 4 replies to 2, which is no question, and 5 replies
  to an identifier that is not in the chat. The stopword file has the one line \<^verbatim>\<open>the\<close>.
\<close>

definition sample_messages :: "message list" where
  "sample_messages =
     [\<lparr>msg_id = 1, msg_from = Present (Some (ustr ''A'')), reply_to_message_id = None,
       msg_text = PlainText (ustr ''Are you coming?'')\<rparr>,
      \<lparr>msg_id = 2, msg_from = Present (Some (ustr ''B'')), reply_to_message_id = Some 1,
       msg_text = PlainText (ustr ''Yes'')\<rparr>,
      \<lparr>msg_id = 3, msg_from = Present (Some (ustr ''C'')), reply_to_message_id = Some 1,
       msg_text = PlainText (ustr ''No'')\<rparr>,
      \<lparr>msg_id = 4, msg_from = Present (Some (ustr ''B'')), reply_to_message_id = Some 2,
       msg_text = PlainText (ustr ''Sure'')\<rparr>,
      \<lparr>msg_id = 5, msg_from = Present (Some (ustr ''C'')), reply_to_message_id = Some 99,
       msg_text = PlainText (ustr ''Hm'')\<rparr>,
      \<lparr>msg_id = 6, msg_from = Present (Some (ustr ''B'')), reply_to_message_id = Some 1,
       msg_text = PlainText (ustr ''With the car?'')\<rparr>,
      \<lparr>msg_id = 7, msg_from = Present (Some (ustr ''A'')), reply_to_message_id = Some 6,
       msg_text = PlainText (ustr ''On foot'')\<rparr>]"

definition sample_chat :: chat_statistics where
  "sample_chat = init sample_libs sample_messages [ustr ''the'' @ [10]]"

text \<open>A message without text, once as a string and once as a list of fragments.\<close>

definition empty_plain_message :: message where
  "empty_plain_message =
     \<lparr>msg_id = 1, msg_from = Present (Some (ustr ''A'')), reply_to_message_id = None,
      msg_text = PlainText []\<rparr>"

definition empty_fragmented_message :: message where
  "empty_fragmented_message =
     \<lparr>msg_id = 2, msg_from = Present (Some (ustr ''A'')), reply_to_message_id = None,
      msg_text = FragmentedText [RawString [], Annotated Map.empty]\<rparr>"

text \<open>A sender who replies to a question of their own.\<close>

definition self_reply_chat :: chat_statistics where
  "self_reply_chat = init sample_libs
     [\<lparr>msg_id = 1, msg_from = Present (Some (ustr ''A'')), reply_to_message_id = None,
       msg_text = PlainText (ustr ''Why?'')\<rparr>,
      \<lparr>msg_id = 2, msg_from = Present (Some (ustr ''A'')), reply_to_message_id = Some 1,
       msg_text = PlainText (ustr ''Because'')\<rparr>]
     []"

text \<open>A question with identifier 0 and a reply whose link is 0.\<close>

definition zero_id_question :: message where
  "zero_id_question =
     \<lparr>msg_id = 0, msg_from = Present (Some (ustr ''A'')), reply_to_message_id = None,
      msg_text = PlainText (ustr ''Why?'')\<rparr>"

definition zero_reply :: message where
  "zero_reply =
     \<lparr>msg_id = 1, msg_from = Present (Some (ustr ''B'')), reply_to_message_id = Some 0,
      msg_text = PlainText (ustr ''Because'')\<rparr>"

text \<open>
  The stopword file holds the word U+06A9 U+0647, written with the Persian kaf; the
  message holds the same word typed with the Arabic kaf, U+0643 U+0647.
\<close>

definition kaf_chat :: chat_statistics where
  "kaf_chat = init sample_libs
     [\<lparr>msg_id = 1, msg_from = Present (Some (ustr ''A'')), reply_to_message_id = None,
       msg_text = PlainText [1603, 1607]\<rparr>]
     [[1705, 1607, 10]]"

text \<open>A chat whose only message has its text as a list of fragments.\<close>

definition fragmented_chat :: chat_statistics where
  "fragmented_chat = init sample_libs
     [\<lparr>msg_id = 1, msg_from = Present (Some (ustr ''A'')), reply_to_message_id = None,
       msg_text = FragmentedText [RawString (ustr ''hello'')]\<rparr>]
     []"

text \<open>A chat in which every token of every message is a stopword.\<close>

definition all_stopwords_chat :: chat_statistics where
  "all_stopwords_chat = init sample_libs
     [\<lparr>msg_id = 1, msg_from = Present (Some (ustr ''A'')), reply_to_message_id = None,
       msg_text = PlainText (ustr ''a a'')\<rparr>]
     [ustr ''a'' @ [10]]"

section \<open>Vocabulary of the properties\<close>

text \<open>The string that \<^verbatim>\<open>msg_has_question\<close> segments into sentences (lines 50 to 53).\<close>

definition flat_text :: "message \<Rightarrow> pystr" where
  "flat_text msg =
     (case msg_text msg of
        PlainText s \<Rightarrow> s
      | FragmentedText fs \<Rightarrow> rebuild_msg (FragmentedText fs))"

definition is_plain :: "message \<Rightarrow> bool" where
  "is_plain msg = (case msg_text msg of PlainText s \<Rightarrow> True | FragmentedText fs \<Rightarrow> False)"

text \<open>
  A message is credited under a question index when it has a reply link that Python takes
  as true and the index holds \<^verbatim>\<open>True\<close> for the linked identifier.
\<close>

definition credited :: "question_index \<Rightarrow> message \<Rightarrow> bool" where
  "credited is_question msg =
     (case reply_to_message_id msg of
        None \<Rightarrow> False
      | Some t \<Rightarrow> t \<noteq> 0 \<and> is_question t = Some True)"

text \<open>The position of the first occurrence of an element, the length when there is none.\<close>

fun first_index :: "'a list \<Rightarrow> 'a \<Rightarrow> nat" where
  "first_index [] x = 0"
| "first_index (y # ys) x = (if x = y then 0 else Suc (first_index ys x))"

text \<open>The order of a ranking: a larger count first, among equal counts the sender met first.\<close>

definition ranks_before :: "'a list \<Rightarrow> 'a \<times> nat \<Rightarrow> 'a \<times> nat \<Rightarrow> bool" where
  "ranks_before users a b \<longleftrightarrow>
     snd b < snd a \<or> (snd a = snd b \<and> first_index users (fst a) < first_index users (fst b))"

text \<open>Two messages that differ at most in a reply link that is missing or zero in both.\<close>

definition same_but_falsy_reply :: "message \<Rightarrow> message \<Rightarrow> bool" where
  "same_but_falsy_reply a b \<longleftrightarrow>
     msg_id a = msg_id b \<and> msg_from a = msg_from b \<and> msg_text a = msg_text b \<and>
     (reply_to_message_id a = reply_to_message_id b \<or>
      (reply_to_message_id a = Some 0 \<and> reply_to_message_id b = None))"

section \<open>Text reconstruction: properties\<close>

lemma rebuild_loop_concat:
  "rebuild_loop acc fs = acc @ concat (map (rebuild_step []) fs)"
proof (induction fs arbitrary: acc)
  case Nil
  show ?case by simp
next
  case (Cons f fs)
  have "rebuild_step acc f = acc @ rebuild_step [] f"
    by (cases f) (simp_all split: option.splits)
  then show ?case using Cons.IH [of "rebuild_step acc f"] by simp
qed

text \<open>
  C8. \<^verbatim>\<open>rebuild_msg\<close> is idempotent: applied to a plain string, which is what it
  returns, it gives that string back unchanged. The loop then runs over the characters of
  the string, each of which is a string.
\<close>

theorem rebuild_msg_idempotent: "rebuild_msg (PlainText s) = s"
proof -
  have "concat (map (rebuild_step []) (map (\<lambda>c. RawString [c]) s)) = s"
    by (induction s) simp_all
  then show ?thesis by (simp add: rebuild_msg_def rebuild_loop_concat)
qed

text \<open>
  C9. For every list of fragments, each a plain string or a dictionary, \<^verbatim>\<open>rebuild_msg\<close>
  returns the concatenation in order, with no separator, of the plain strings and of the
  \<^verbatim>\<open>text\<close> values of the dictionaries that have one; a dictionary without \<^verbatim>\<open>text\<close>
  contributes the empty string, and the function has no error. The list
  \<^verbatim>\<open>["Hello ", {"text": "world"}]\<close> gives \<^verbatim>\<open>"Hello world"\<close>.
\<close>

theorem rebuild_msg_concat:
  "rebuild_msg (FragmentedText fs) =
     concat (map (\<lambda>f. case f of
                         RawString s \<Rightarrow> s
                       | Annotated d \<Rightarrow> (case d (ustr ''text'') of Some t \<Rightarrow> t | None \<Rightarrow> [])) fs)
   \<and> rebuild_msg (FragmentedText
         [RawString (ustr ''Hello ''), Annotated [ustr ''text'' \<mapsto> ustr ''world'']])
       = ustr ''Hello world''"
proof -
  have "rebuild_step [] =
          (\<lambda>f. case f of
                  RawString s \<Rightarrow> s
                | Annotated d \<Rightarrow> (case d (ustr ''text'') of Some t \<Rightarrow> t | None \<Rightarrow> []))"
    by (rule ext) (simp split: fragment.splits option.splits)
  then have general: "rebuild_msg (FragmentedText fs) =
     concat (map (\<lambda>f. case f of
                         RawString s \<Rightarrow> s
                       | Annotated d \<Rightarrow> (case d (ustr ''text'') of Some t \<Rightarrow> t | None \<Rightarrow> [])) fs)"
    by (simp add: rebuild_msg_def rebuild_loop_concat)
  have scenario: "rebuild_msg (FragmentedText
         [RawString (ustr ''Hello ''), Annotated [ustr ''text'' \<mapsto> ustr ''world'']])
       = ustr ''Hello world''"
    by (simp add: rebuild_msg_def ustr_def)
  from general scenario show ?thesis by blast
qed

section \<open>Question detection: properties\<close>

lemmas eval_simps = get_top_users_def msg_has_question_def sample_libs_def sample_sent_tokenize_def
  ustr_def question_mark_def persian_question_mark_def truthy_def defaultdict_getitem_def
  Counter_def most_common_def dict_def init_def strip_def py_isspace_def sample_normalize_def
  generate_word_cloud_def sample_WordCloud_generate_def Let_def

lemma msg_has_question_fields:
  "msg_id (snd (msg_has_question L m)) = msg_id m"
  "msg_from (snd (msg_has_question L m)) = msg_from m"
  "reply_to_message_id (snd (msg_has_question L m)) = reply_to_message_id m"
  "msg_text (snd (msg_has_question L m)) = PlainText (flat_text m)"
  by (simp_all add: msg_has_question_def flat_text_def Let_def split: text_value.splits)

lemma msg_has_question_result:
  "fst (msg_has_question L m) = sentences_loop (sent_tokenize L (flat_text m))"
  by (simp add: msg_has_question_def flat_text_def Let_def split: text_value.splits)

lemma sentences_loop_iff:
  "sentences_loop sentences = Some True \<longleftrightarrow>
     (\<exists>sentence\<in>set sentences. question_mark \<in> set sentence \<or> persian_question_mark \<in> set sentence)"
  by (induction sentences) auto

lemma sentences_loop_cases: "sentences_loop sentences = Some True \<or> sentences_loop sentences = None"
  by (induction sentences) auto

text \<open>
  C2. \<^verbatim>\<open>msg_has_question\<close> returns \<^verbatim>\<open>True\<close> exactly when some sentence of the segmented
  flat text of the message contains \<^verbatim>\<open>?\<close> or the Persian question mark, and \<^verbatim>\<open>None\<close>
  otherwise; for a message with empty text, given that the segmentation of the empty
  string has no sentence, the result is \<^verbatim>\<open>None\<close>, which is false.
\<close>

theorem msg_has_question_iff:
  "(fst (msg_has_question L msg) = Some True \<longleftrightarrow>
      (\<exists>sentence\<in>set (sent_tokenize L (flat_text msg)).
         question_mark \<in> set sentence \<or> persian_question_mark \<in> set sentence))
   \<and> (fst (msg_has_question L msg) \<noteq> Some True \<longrightarrow> fst (msg_has_question L msg) = None)
   \<and> (sent_tokenize L [] = [] \<longrightarrow> flat_text msg = [] \<longrightarrow>
        fst (msg_has_question L msg) = None \<and> \<not> truthy (fst (msg_has_question L msg)))"
proof -
  have res: "fst (msg_has_question L msg) = sentences_loop (sent_tokenize L (flat_text msg))"
    by (rule msg_has_question_result)
  have a: "fst (msg_has_question L msg) = Some True \<longleftrightarrow>
      (\<exists>sentence\<in>set (sent_tokenize L (flat_text msg)).
         question_mark \<in> set sentence \<or> persian_question_mark \<in> set sentence)"
    unfolding res by (rule sentences_loop_iff)
  have b: "fst (msg_has_question L msg) \<noteq> Some True \<longrightarrow> fst (msg_has_question L msg) = None"
    unfolding res using sentences_loop_cases [of "sent_tokenize L (flat_text msg)"] by blast
  have c: "sent_tokenize L [] = [] \<longrightarrow> flat_text msg = [] \<longrightarrow>
        fst (msg_has_question L msg) = None \<and> \<not> truthy (fst (msg_has_question L msg))"
    unfolding res by (simp add: truthy_def)
  from a b c show ?thesis by blast
qed

theorem msg_has_question_iff_witness:
  "fst (msg_has_question sample_libs (hd sample_messages)) = Some True
   \<and> sent_tokenize sample_libs [] = []
   \<and> flat_text empty_plain_message = []
   \<and> flat_text empty_fragmented_message = []
   \<and> fst (msg_has_question sample_libs empty_plain_message) = None
   \<and> fst (msg_has_question sample_libs empty_fragmented_message) = None"
proof -
  have t: "sent_tokenize sample_libs [] = []"
    by (simp add: sample_libs_def sample_sent_tokenize_def)
  have p: "flat_text empty_plain_message = []"
    by (simp add: flat_text_def empty_plain_message_def)
  have f: "flat_text empty_fragmented_message = []"
    by (simp add: flat_text_def empty_fragmented_message_def rebuild_msg_def)
  have q: "\<exists>sentence\<in>set (sent_tokenize sample_libs (flat_text (hd sample_messages))).
         question_mark \<in> set sentence \<or> persian_question_mark \<in> set sentence"
    by (simp add: sample_messages_def flat_text_def sample_libs_def sample_sent_tokenize_def
        ustr_def question_mark_def)
  from msg_has_question_iff [of sample_libs "hd sample_messages"] q
  have "fst (msg_has_question sample_libs (hd sample_messages)) = Some True" by blast
  moreover from msg_has_question_iff [of sample_libs empty_plain_message] t p
  have "fst (msg_has_question sample_libs empty_plain_message) = None" by blast
  moreover from msg_has_question_iff [of sample_libs empty_fragmented_message] t f
  have "fst (msg_has_question sample_libs empty_fragmented_message) = None" by blast
  ultimately show ?thesis using t p f by blast
qed

section \<open>The responder ranking: properties\<close>

lemma mark_questions_fst:
  "fst (mark_questions L msgs iq) = map (\<lambda>m. snd (msg_has_question L m)) msgs"
  by (induction msgs arbitrary: iq) (simp_all add: split_beta Let_def)

lemma mark_questions_snd:
  "snd (mark_questions L msgs iq) t = Some True \<longleftrightarrow>
     iq t = Some True \<or> (\<exists>q\<in>set msgs. msg_id q = t \<and> fst (msg_has_question L q) = Some True)"
proof (induction msgs arbitrary: iq)
  case Nil
  show ?case by simp
next
  case (Cons m msgs)
  show ?case
    by (auto simp add: split_beta Let_def Cons.IH truthy_def msg_has_question_fields)
qed

lemma credited_vivify:
  "iq t = None \<Longrightarrow> credited (iq(t \<mapsto> False)) = credited iq"
  by (rule ext) (auto simp: credited_def split: option.splits)

lemma collect_users_Inr:
  "collect_users msgs iq users = Inr us \<Longrightarrow>
     map Present us = map Present users @ map msg_from (filter (credited iq) msgs)"
proof (induction msgs arbitrary: iq users)
  case Nil
  then show ?case by auto
next
  case (Cons m msgs)
  show ?case
  proof (cases "reply_to_message_id m")
    case None
    with Cons.prems have "collect_users msgs iq users = Inr us" by simp
    from Cons.IH [OF this] None show ?thesis by (simp add: credited_def)
  next
    case (Some r)
    show ?thesis
    proof (cases "r = 0")
      case True
      with Some Cons.prems have "collect_users msgs iq users = Inr us" by simp
      from Cons.IH [OF this] Some True show ?thesis by (simp add: credited_def)
    next
      case False
      show ?thesis
      proof (cases "iq r")
        case None
        with Some False Cons.prems have "collect_users msgs (iq(r \<mapsto> False)) users = Inr us"
          by (simp add: defaultdict_getitem_def)
        from Cons.IH [OF this]
        have "map Present us =
                map Present users @ map msg_from (filter (credited (iq(r \<mapsto> False))) msgs)" .
        then have "map Present us = map Present users @ map msg_from (filter (credited iq) msgs)"
          using credited_vivify [of iq r] None by simp
        moreover have "\<not> credited iq m"
          using \<open>reply_to_message_id m = Some r\<close> None by (simp add: credited_def)
        ultimately show ?thesis by simp
      next
        case (Some v)
        note iqr = this
        show ?thesis
        proof (cases v)
          case False
          with iqr \<open>reply_to_message_id m = Some r\<close> \<open>r \<noteq> 0\<close> Cons.prems
          have "collect_users msgs iq users = Inr us"
            by (simp add: defaultdict_getitem_def)
          from Cons.IH [OF this] iqr False \<open>reply_to_message_id m = Some r\<close> show ?thesis
            by (simp add: credited_def)
        next
          case True
          with iqr \<open>reply_to_message_id m = Some r\<close> \<open>r \<noteq> 0\<close> Cons.prems
          obtain s where s: "msg_from m = Present s"
            and rec: "collect_users msgs iq (users @ [s]) = Inr us"
            by (cases "msg_from m") (simp_all add: defaultdict_getitem_def)
          from Cons.IH [OF rec] iqr True \<open>reply_to_message_id m = Some r\<close> \<open>r \<noteq> 0\<close> s
          show ?thesis by (simp add: credited_def)
        qed
      qed
    qed
  qed
qed

lemma counter_update_snoc:
  "counter_update d (xs @ [x]) = counter_add x (counter_update d xs)"
  by (induction xs arbitrary: d) simp_all

lemma counter_add_map:
  "distinct ks \<Longrightarrow>
     counter_add x (map (\<lambda>k. (k, f k)) ks) =
       (if x \<in> set ks then map (\<lambda>k. (k, if k = x then f k + 1 else f k)) ks
        else map (\<lambda>k. (k, f k)) ks @ [(x, 1)])"
  by (induction ks) auto

lemma Counter_eq:
  "Counter xs = map (\<lambda>k. (k, count_list xs k)) (rev (remdups (rev xs)))"
proof (induction xs rule: rev_induct)
  case Nil
  show ?case by (simp add: Counter_def)
next
  case (snoc x xs)
  let ?F = "rev (remdups (rev xs))"
  have d: "distinct ?F" and sF: "set ?F = set xs" by simp_all
  have "Counter (xs @ [x]) = counter_add x (Counter xs)"
    by (simp add: Counter_def counter_update_snoc)
  also have "\<dots> = counter_add x (map (\<lambda>k. (k, count_list xs k)) ?F)"
    by (simp only: snoc.IH)
  also have "\<dots> = (if x \<in> set xs then map (\<lambda>k. (k, if k = x then count_list xs k + 1 else count_list xs k)) ?F
        else map (\<lambda>k. (k, count_list xs k)) ?F @ [(x, 1)])"
    using counter_add_map [OF d, of x "count_list xs"] sF by simp
  also have "\<dots> = map (\<lambda>k. (k, count_list (xs @ [x]) k)) (rev (remdups (rev (xs @ [x]))))"
  proof (cases "x \<in> set xs")
    case True
    then show ?thesis by auto
  next
    case False
    then have "count_list xs x = 0" by simp
    with False sF show ?thesis by auto
  qed
  finally show ?case .
qed

lemma first_index_less: "first_index xs a < length xs \<longleftrightarrow> a \<in> set xs"
  by (induction xs) auto

lemma first_index_append:
  "first_index (xs @ ys) a =
     (if a \<in> set xs then first_index xs a else length xs + first_index ys a)"
  by (induction xs) auto

lemma firsts_sorted:
  "sorted_wrt (\<lambda>a b. first_index xs a < first_index xs b) (rev (remdups (rev xs)))"
proof (induction xs rule: rev_induct)
  case Nil
  show ?case by simp
next
  case (snoc x xs)
  let ?F = "rev (remdups (rev xs))"
  have sF: "set ?F = set xs" by simp
  have mono: "sorted_wrt (\<lambda>a b. first_index (xs @ [x]) a < first_index (xs @ [x]) b) ?F"
    using snoc.IH
    by (rule sorted_wrt_mono_rel [rotated]) (simp add: first_index_append)
  show ?case
  proof (cases "x \<in> set xs")
    case True
    with mono show ?thesis by simp
  next
    case False
    have "\<forall>a\<in>set ?F. first_index (xs @ [x]) a < first_index (xs @ [x]) x"
      using False by (simp add: first_index_append first_index_less)
    with mono False show ?thesis by (simp add: sorted_wrt_append)
  qed
qed

lemma Counter_sorted:
  "sorted_wrt (\<lambda>a b. first_index xs (fst a) < first_index xs (fst b)) (Counter xs)"
  using firsts_sorted [of xs] by (simp add: Counter_eq sorted_wrt_map)

lemma insort_ranks:
  "sorted_wrt (ranks_before us) ys \<Longrightarrow>
   \<forall>y\<in>set ys. first_index us (fst x) < first_index us (fst y) \<Longrightarrow>
   sorted_wrt (ranks_before us) (insort_key (\<lambda>kc. - int (snd kc)) x ys)"
proof (induction ys)
  case Nil
  show ?case by simp
next
  case (Cons y ys)
  show ?case
  proof (cases "snd y \<le> snd x")
    case True
    have "ranks_before us x z" if "z \<in> set (y # ys)" for z
    proof -
      have "snd z \<le> snd y" using that Cons.prems(1) by (auto simp: ranks_before_def)
      moreover have "first_index us (fst x) < first_index us (fst z)"
        using that Cons.prems(2) by blast
      ultimately show ?thesis using True by (auto simp: ranks_before_def)
    qed
    with True Cons.prems(1) show ?thesis by simp
  next
    case False
    then have "ranks_before us y x" by (simp add: ranks_before_def)
    moreover have "sorted_wrt (ranks_before us) (insort_key (\<lambda>kc. - int (snd kc)) x ys)"
      using Cons.IH Cons.prems by simp
    ultimately show ?thesis using False Cons.prems(1) by (auto simp: set_insort_key)
  qed
qed

lemma sort_ranks:
  "sorted_wrt (\<lambda>a b. first_index us (fst a) < first_index us (fst b)) items \<Longrightarrow>
   sorted_wrt (ranks_before us) (sort_key (\<lambda>kc. - int (snd kc)) items)"
proof (induction items)
  case Nil
  show ?case by simp
next
  case (Cons x items)
  then show ?case by (simp add: insort_ranks)
qed

lemma dict_setitem_new:
  "k \<notin> fst ` set d \<Longrightarrow> dict_setitem k v d = d @ [(k, v)]"
  by (induction d) auto

lemma dict_update_distinct:
  "distinct (map fst (d @ kvs)) \<Longrightarrow> dict_update d kvs = d @ kvs"
proof (induction kvs arbitrary: d)
  case Nil
  show ?case by simp
next
  case (Cons kv kvs)
  obtain k v where kv: "kv = (k, v)" by (cases kv)
  from Cons.prems kv have new: "k \<notin> fst ` set d" by auto
  from Cons.prems kv have "distinct (map fst ((d @ [(k, v)]) @ kvs))" by auto
  from Cons.IH [OF this] new kv show ?case by (simp add: dict_setitem_new)
qed

lemma dict_distinct: "distinct (map fst kvs) \<Longrightarrow> dict kvs = kvs"
  using dict_update_distinct [of "[]" kvs] by (simp add: dict_def)

lemma most_common_Counter_distinct:
  "distinct (map fst (most_common (Counter xs) n))"
proof -
  have "distinct (map fst (Counter xs))" by (simp add: Counter_eq comp_def)
  then have "distinct (map fst (sort_key (\<lambda>kc. - int (snd kc)) (Counter xs)))"
    by (simp add: distinct_map)
  then show ?thesis by (simp add: most_common_def take_map [symmetric] distinct_take)
qed

lemma get_top_users_Inr:
  assumes "get_top_users L self n = (Inr ranking, self')"
  obtains users where
    "collect_users (map (\<lambda>m. snd (msg_has_question L m)) (chat_data self))
       (snd (mark_questions L (chat_data self) Map.empty)) [] = Inr users"
    "ranking = most_common (Counter users) n"
proof -
  obtain msgs' iq where mq: "mark_questions L (chat_data self) Map.empty = (msgs', iq)"
    by (cases "mark_questions L (chat_data self) Map.empty")
  have msgs': "msgs' = map (\<lambda>m. snd (msg_has_question L m)) (chat_data self)"
    using mark_questions_fst [of L "chat_data self" Map.empty] mq by simp
  from assms mq obtain users where
    cu: "collect_users msgs' iq [] = Inr users"
    and r: "ranking = dict (most_common (Counter users) n)"
    by (cases "collect_users msgs' iq []") (simp_all add: get_top_users_def)
  from r have "ranking = most_common (Counter users) n"
    by (simp add: dict_distinct most_common_Counter_distinct)
  with cu msgs' mq that show thesis by simp
qed

lemma credited_users_count:
  assumes "collect_users (map (\<lambda>m. snd (msg_has_question L m)) msgs) iq [] = Inr users"
  shows "count_list users s =
           length (filter (\<lambda>m. msg_from m = Present s \<and> credited iq m) msgs)"
proof -
  let ?g = "\<lambda>m. snd (msg_has_question L m)"
  have cred: "credited iq (?g m) = credited iq m" for m
    by (simp add: credited_def msg_has_question_fields)
  have "map Present users = map msg_from (filter (credited iq) (map ?g msgs))"
    using collect_users_Inr [OF assms] by simp
  also have "\<dots> = map msg_from (filter (credited iq) msgs)"
    by (simp add: filter_map comp_def cred msg_has_question_fields)
  finally have eq: "map Present users = map msg_from (filter (credited iq) msgs)" .
  have "count_list users s = length (filter ((=) (Present s)) (map Present users))"
    by (simp add: count_list_eq_length_filter filter_map comp_def)
  also have "\<dots> = length (filter ((=) (Present s)) (map msg_from (filter (credited iq) msgs)))"
    by (simp only: eq)
  also have "\<dots> = length (filter (\<lambda>m. msg_from m = Present s \<and> credited iq m) msgs)"
    by (simp add: filter_map comp_def conj_commute eq_commute)
  finally show ?thesis .
qed

lemma most_common_subset: "set (most_common items n) \<subseteq> set items"
  using set_take_subset [of "nat n" "sort_key (\<lambda>kc. - int (snd kc)) items"]
  by (simp add: most_common_def)

lemma Counter_member:
  "(s, c) \<in> set (Counter xs) \<Longrightarrow> s \<in> set xs \<and> c = count_list xs s"
  by (auto simp: Counter_eq)

text \<open>
  C1. Credit follows the question index. When \<^verbatim>\<open>get_top_users\<close> returns a ranking, the
  index built by the first loop holds \<^verbatim>\<open>True\<close> exactly for the identifiers of the
  messages of the collection that \<^verbatim>\<open>msg_has_question\<close> takes for a question, a lookup
  of an identifier that no message of the collection has gives \<^verbatim>\<open>False\<close>, and the count
  of every sender in the ranking is the number of that sender's messages whose reply link
  is marked in the index: a reply to a message that is no question, or to an identifier
  that is not in the collection, adds to no count.
\<close>

theorem get_top_users_credit:
  assumes "mark_questions L (chat_data self) Map.empty = (msgs', is_question)"
    and "get_top_users L self top_n = (Inr ranking, self')"
  shows "(\<forall>t. is_question t = Some True \<longleftrightarrow>
            (\<exists>q\<in>set (chat_data self). msg_id q = t \<and> fst (msg_has_question L q) = Some True))
       \<and> (\<forall>t. t \<notin> msg_id ` set (chat_data self) \<longrightarrow> fst (defaultdict_getitem is_question t) = False)
       \<and> (\<forall>(s, c)\<in>set ranking.
            0 < c \<and>
            c = length (filter (\<lambda>m. msg_from m = Present s \<and> credited is_question m)
                          (chat_data self)))"
proof -
  have iq: "is_question = snd (mark_questions L (chat_data self) Map.empty)"
    using assms(1) by simp
  have marked: "is_question t = Some True \<longleftrightarrow>
            (\<exists>q\<in>set (chat_data self). msg_id q = t \<and> fst (msg_has_question L q) = Some True)" for t
    unfolding iq by (simp add: mark_questions_snd)
  have absent: "fst (defaultdict_getitem is_question t) = False"
    if "t \<notin> msg_id ` set (chat_data self)" for t
  proof -
    from that marked [of t] have "is_question t \<noteq> Some True" by blast
    then show ?thesis by (auto simp: defaultdict_getitem_def split: option.splits)
  qed
  from assms(2) obtain users where
    cu: "collect_users (map (\<lambda>m. snd (msg_has_question L m)) (chat_data self)) is_question [] = Inr users"
    and r: "ranking = most_common (Counter users) top_n"
    unfolding iq by (rule get_top_users_Inr)
  have counts: "0 < c \<and> c = length (filter (\<lambda>m. msg_from m = Present s \<and> credited is_question m)
                          (chat_data self))" if "(s, c) \<in> set ranking" for s c
  proof -
    from that r most_common_subset have "(s, c) \<in> set (Counter users)" by blast
    then have "s \<in> set users" and c: "c = count_list users s"
      by (simp_all add: Counter_member)
    then have "0 < c" using count_list_0_iff [of users s] by simp
    with c credited_users_count [OF cu] show ?thesis by simp
  qed
  from marked absent counts show ?thesis by blast
qed

theorem get_top_users_credit_witness:
  "get_top_users sample_libs sample_chat 10 =
     (Inr [(Some (ustr ''B''), 2), (Some (ustr ''C''), 1), (Some (ustr ''A''), 1)], sample_chat)
   \<and> fst (defaultdict_getitem
            (snd (mark_questions sample_libs (chat_data sample_chat) Map.empty)) 99) = False
   \<and> length (filter (\<lambda>m. msg_from m = Present (Some (ustr ''B'')) \<and>
                 credited (snd (mark_questions sample_libs (chat_data sample_chat) Map.empty)) m)
               (chat_data sample_chat)) = 2"
proof -
  let ?iq = "snd (mark_questions sample_libs (chat_data sample_chat) Map.empty)"
  have h1: "mark_questions sample_libs (chat_data sample_chat) Map.empty =
              (fst (mark_questions sample_libs (chat_data sample_chat) Map.empty), ?iq)"
    by simp
  have h2: "get_top_users sample_libs sample_chat 10 =
     (Inr [(Some (ustr ''B''), 2), (Some (ustr ''C''), 1), (Some (ustr ''A''), 1)], sample_chat)"
    by (simp add: eval_simps sample_chat_def sample_messages_def)
  note concl = get_top_users_credit [OF h1 h2]
  from concl have absent: "\<forall>t. t \<notin> msg_id ` set (chat_data sample_chat) \<longrightarrow>
      fst (defaultdict_getitem ?iq t) = False" by blast
  have "(99::int) \<notin> msg_id ` set (chat_data sample_chat)"
    by (simp add: sample_chat_def sample_messages_def init_def)
  with absent have a: "fst (defaultdict_getitem ?iq 99) = False" by blast
  from concl [THEN conjunct2, THEN conjunct2] have b: "length (filter (\<lambda>m. msg_from m = Present (Some (ustr ''B'')) \<and> credited ?iq m)
               (chat_data sample_chat)) = 2" by simp
  from h2 a b show ?thesis by blast
qed

lemma length_Counter: "length (Counter xs) = card (set xs)"
  using length_remdups_card_conv [of "rev xs"] by (simp add: Counter_eq)

lemma fst_set_Counter: "fst ` set (Counter xs) = set xs"
  by (force simp: Counter_eq)

lemma Counter_member_iff:
  "s \<in> set xs \<Longrightarrow> (s, count_list xs s) \<in> set (Counter xs)"
  by (force simp: Counter_eq)

lemma most_common_cut:
  assumes "s \<in> set users" and "s \<notin> fst ` set (most_common (Counter users) n)"
    and "q \<in> set (most_common (Counter users) n)"
  shows "ranks_before users q (s, count_list users s)"
proof -
  let ?S = "sort_key (\<lambda>kc. - int (snd kc)) (Counter users)"
  have "sorted_wrt (ranks_before users) (take (nat n) ?S @ drop (nat n) ?S)"
    using sort_ranks [OF Counter_sorted, of users] by simp
  then have cut: "\<forall>a\<in>set (take (nat n) ?S). \<forall>b\<in>set (drop (nat n) ?S). ranks_before users a b"
    unfolding sorted_wrt_append by blast
  have "(s, count_list users s) \<in> set ?S"
    using assms(1) by (simp add: Counter_member_iff)
  then have "(s, count_list users s) \<in> set (take (nat n) ?S) \<union> set (drop (nat n) ?S)"
    using set_append [of "take (nat n) ?S" "drop (nat n) ?S"] by simp
  moreover have "(s, count_list users s) \<notin> set (take (nat n) ?S)"
    using assms(2) by (force simp: most_common_def)
  ultimately have "(s, count_list users s) \<in> set (drop (nat n) ?S)" by blast
  with cut assms(3) show ?thesis by (simp add: most_common_def)
qed

text \<open>
  C3. For every collection and every integer \<open>top_n\<close>, when the second loop has built
  the list \<open>users\<close> of credited senders, \<^verbatim>\<open>get_top_users\<close> returns a ranking of at most
  \<open>top_n\<close> pairs of a sender and that sender's count, in descending order of the count and,
  among equal counts, in the order in which the senders were first met; the ranking is
  empty for \<open>top_n \<le> 0\<close> and holds every credited sender when \<open>top_n\<close> is at least their
  number. A credited sender who is left out comes, in that order, after every sender of
  the ranking.
\<close>

theorem get_top_users_ranking:
  assumes "mark_questions L (chat_data self) Map.empty = (msgs', is_question)"
    and "collect_users msgs' is_question [] = Inr users"
  shows "\<exists>ranking. fst (get_top_users L self top_n) = Inr ranking
       \<and> length ranking \<le> nat top_n
       \<and> length ranking = min (nat top_n) (card (set users))
       \<and> sorted_wrt (ranks_before users) ranking
       \<and> (\<forall>(s, c)\<in>set ranking. s \<in> set users \<and> c = count_list users s)
       \<and> (top_n \<le> 0 \<longrightarrow> ranking = [])
       \<and> (int (card (set users)) \<le> top_n \<longrightarrow> fst ` set ranking = set users)
       \<and> (\<forall>s\<in>set users. s \<notin> fst ` set ranking \<longrightarrow>
            (\<forall>q\<in>set ranking. ranks_before users q (s, count_list users s)))"
proof -
  let ?r = "most_common (Counter users) top_n"
  let ?sorted = "sort_key (\<lambda>kc. - int (snd kc)) (Counter users)"
  have "dict ?r = ?r"
    by (simp add: dict_distinct most_common_Counter_distinct)
  with assms have ret: "fst (get_top_users L self top_n) = Inr ?r"
    by (simp add: get_top_users_def)
  have len: "length ?r = min (nat top_n) (card (set users))"
    by (simp add: most_common_def length_Counter min.commute)
  have srt: "sorted_wrt (ranks_before users) ?r"
    unfolding most_common_def
    by (rule sorted_wrt_take) (rule sort_ranks [OF Counter_sorted])
  have cnt: "\<forall>(s, c)\<in>set ?r. s \<in> set users \<and> c = count_list users s"
    using most_common_subset [of "Counter users" top_n] Counter_member [of _ _ users] by blast
  have none: "top_n \<le> 0 \<longrightarrow> ?r = []"
    by (simp add: most_common_def)
  have all: "int (card (set users)) \<le> top_n \<longrightarrow> fst ` set ?r = set users"
  proof
    assume "int (card (set users)) \<le> top_n"
    then have "length ?sorted \<le> nat top_n" by (simp add: length_Counter)
    then have "?r = ?sorted" by (simp add: most_common_def)
    then show "fst ` set ?r = set users" by (simp add: fst_set_Counter)
  qed
  have cut: "\<forall>s\<in>set users. s \<notin> fst ` set ?r \<longrightarrow>
            (\<forall>q\<in>set ?r. ranks_before users q (s, count_list users s))"
    using most_common_cut [of _ users top_n] by blast
  from len have le: "length ?r \<le> nat top_n" by simp
  from ret le len srt cnt none all cut show ?thesis by blast
qed

theorem get_top_users_ranking_witness:
  "collect_users (fst (mark_questions sample_libs (chat_data sample_chat) Map.empty))
     (snd (mark_questions sample_libs (chat_data sample_chat) Map.empty)) [] =
       Inr [Some (ustr ''B''), Some (ustr ''C''), Some (ustr ''B''), Some (ustr ''A'')]
   \<and> fst (get_top_users sample_libs sample_chat 2) = Inr [(Some (ustr ''B''), 2), (Some (ustr ''C''), 1)]
   \<and> sorted_wrt (ranks_before [Some (ustr ''B''), Some (ustr ''C''), Some (ustr ''B''), Some (ustr ''A'')])
        [(Some (ustr ''B''), 2), (Some (ustr ''C''), 1)]"
proof -
  let ?users = "[Some (ustr ''B''), Some (ustr ''C''), Some (ustr ''B''), Some (ustr ''A'')]"
  have h1: "mark_questions sample_libs (chat_data sample_chat) Map.empty =
              (fst (mark_questions sample_libs (chat_data sample_chat) Map.empty),
               snd (mark_questions sample_libs (chat_data sample_chat) Map.empty))"
    by simp
  have h2: "collect_users (fst (mark_questions sample_libs (chat_data sample_chat) Map.empty))
     (snd (mark_questions sample_libs (chat_data sample_chat) Map.empty)) [] = Inr ?users"
    by (simp add: eval_simps sample_chat_def sample_messages_def)
  have e: "fst (get_top_users sample_libs sample_chat 2) =
             Inr [(Some (ustr ''B''), 2), (Some (ustr ''C''), 1)]"
    by (simp add: eval_simps sample_chat_def sample_messages_def)
  from get_top_users_ranking [OF h1 h2, of 2] obtain ranking where
    r: "fst (get_top_users sample_libs sample_chat 2) = Inr ranking"
    and s: "sorted_wrt (ranks_before ?users) ranking"
    by blast
  from r e have "ranking = [(Some (ustr ''B''), 2), (Some (ustr ''C''), 1)]" by simp
  with s have "sorted_wrt (ranks_before ?users) [(Some (ustr ''B''), 2), (Some (ustr ''C''), 1)]"
    by simp
  with h2 e show ?thesis by blast
qed

lemma same_but_falsy_reply_step:
  "same_but_falsy_reply a b \<Longrightarrow>
     same_but_falsy_reply (snd (msg_has_question L a)) (snd (msg_has_question L b))
     \<and> fst (msg_has_question L a) = fst (msg_has_question L b)"
  by (simp add: same_but_falsy_reply_def msg_has_question_fields msg_has_question_result flat_text_def)

lemma mark_questions_falsy_reply:
  "list_all2 same_but_falsy_reply xs ys \<Longrightarrow>
     list_all2 same_but_falsy_reply (fst (mark_questions L xs iq)) (fst (mark_questions L ys iq))
     \<and> snd (mark_questions L xs iq) = snd (mark_questions L ys iq)"
proof (induction xs ys arbitrary: iq rule: list_all2_induct)
  case Nil
  show ?case by simp
next
  case (Cons a xs b ys)
  from same_but_falsy_reply_step [OF Cons.hyps(1), of L]
  have step: "same_but_falsy_reply (snd (msg_has_question L a)) (snd (msg_has_question L b))"
    and res: "fst (msg_has_question L a) = fst (msg_has_question L b)" by simp_all
  from Cons.hyps(1) have ids: "msg_id a = msg_id b" by (simp add: same_but_falsy_reply_def)
  show ?case
    using step res ids Cons.IH
    by (simp add: split_beta Let_def msg_has_question_fields)
qed

lemma collect_users_falsy_reply:
  "list_all2 same_but_falsy_reply xs ys \<Longrightarrow> collect_users xs iq users = collect_users ys iq users"
proof (induction xs ys arbitrary: iq users rule: list_all2_induct)
  case Nil
  show ?case by simp
next
  case (Cons a xs b ys)
  from Cons.hyps(1) have from_eq: "msg_from a = msg_from b"
    and reply: "reply_to_message_id a = reply_to_message_id b \<or>
      (reply_to_message_id a = Some 0 \<and> reply_to_message_id b = None)"
    by (simp_all add: same_but_falsy_reply_def)
  from reply show ?case
  proof
    assume "reply_to_message_id a = reply_to_message_id b"
    with from_eq Cons.IH show ?thesis
      by (simp add: split_beta Let_def split: option.splits field.splits)
  next
    assume "reply_to_message_id a = Some 0 \<and> reply_to_message_id b = None"
    with Cons.IH show ?thesis by simp
  qed
qed

lemma same_but_falsy_reply_refl: "list_all2 same_but_falsy_reply xs xs"
  by (simp add: list_all2_same same_but_falsy_reply_def)

text \<open>
  C10. A message whose \<^verbatim>\<open>reply_to_message_id\<close> is 0 gets no credit: the second loop
  skips it, whatever the question index holds, and \<^verbatim>\<open>get_top_users\<close> returns what it
  returns for the collection in which that message has no reply link at all.
\<close>

theorem get_top_users_falsy_reply:
  assumes "reply_to_message_id m = Some 0"
  shows "collect_users (m # rest) is_question users = collect_users rest is_question users
       \<and> fst (get_top_users L (self\<lparr>chat_data := before @ m # rest\<rparr>) top_n) =
         fst (get_top_users L (self\<lparr>chat_data := before @ m\<lparr>reply_to_message_id := None\<rparr> # rest\<rparr>) top_n)"
proof -
  let ?xs = "before @ m # rest"
  let ?ys = "before @ m\<lparr>reply_to_message_id := None\<rparr> # rest"
  have skip: "collect_users (m # rest) is_question users = collect_users rest is_question users"
    using assms by simp
  have "same_but_falsy_reply m (m\<lparr>reply_to_message_id := None\<rparr>)"
    using assms by (simp add: same_but_falsy_reply_def)
  then have rel: "list_all2 same_but_falsy_reply ?xs ?ys"
    by (simp add: list_all2_appendI same_but_falsy_reply_refl)
  from mark_questions_falsy_reply [OF rel, of L Map.empty]
  have rel': "list_all2 same_but_falsy_reply
                (fst (mark_questions L ?xs Map.empty)) (fst (mark_questions L ?ys Map.empty))"
    and iq: "snd (mark_questions L ?xs Map.empty) = snd (mark_questions L ?ys Map.empty)"
    by simp_all
  have "collect_users (fst (mark_questions L ?xs Map.empty)) (snd (mark_questions L ?xs Map.empty)) [] =
        collect_users (fst (mark_questions L ?ys Map.empty)) (snd (mark_questions L ?ys Map.empty)) []"
    using collect_users_falsy_reply [OF rel'] iq by simp
  then have "fst (get_top_users L (self\<lparr>chat_data := ?xs\<rparr>) top_n) =
         fst (get_top_users L (self\<lparr>chat_data := ?ys\<rparr>) top_n)"
    by (simp add: get_top_users_def split_beta Let_def split: sum.splits)
  with skip show ?thesis by blast
qed

theorem get_top_users_falsy_reply_witness:
  "reply_to_message_id zero_reply = Some 0
   \<and> fst (msg_has_question sample_libs zero_id_question) = Some True
   \<and> fst (get_top_users sample_libs
            (init sample_libs [zero_id_question, zero_reply] []) 10) = Inr []"
proof -
  have h: "reply_to_message_id zero_reply = Some 0" by (simp add: zero_reply_def)
  have q: "fst (msg_has_question sample_libs zero_id_question) = Some True"
    by (simp add: eval_simps zero_id_question_def)
  have "fst (get_top_users sample_libs
          ((init sample_libs [zero_id_question, zero_reply] [])
             \<lparr>chat_data := [zero_id_question] @ zero_reply\<lparr>reply_to_message_id := None\<rparr> # []\<rparr>) 10) = Inr []"
    by (simp add: eval_simps zero_id_question_def zero_reply_def)
  with get_top_users_falsy_reply [OF h, where rest = "[]" and L = sample_libs
      and self = "init sample_libs [zero_id_question, zero_reply] []"
      and before = "[zero_id_question]" and top_n = 10]
  have "fst (get_top_users sample_libs
          ((init sample_libs [zero_id_question, zero_reply] [])
             \<lparr>chat_data := [zero_id_question] @ zero_reply # []\<rparr>) 10) = Inr []"
    by simp
  then have "fst (get_top_users sample_libs
            (init sample_libs [zero_id_question, zero_reply] []) 10) = Inr []"
    by (simp add: init_def)
  with h q show ?thesis by blast
qed

section \<open>The word cloud: properties\<close>

lemma text_content_loop_all_stopwords:
  "\<forall>msg\<in>set msgs. \<forall>s. msg_text msg = PlainText s \<longrightarrow> set (word_tokenize L s) \<subseteq> sw \<Longrightarrow>
     text_content_loop L sw msgs tc = tc @ replicate (length (filter is_plain msgs)) 32"
proof (induction msgs arbitrary: tc)
  case Nil
  show ?case by simp
next
  case (Cons m msgs)
  from Cons.prems have rest: "\<forall>msg\<in>set msgs. \<forall>s. msg_text msg = PlainText s \<longrightarrow>
      set (word_tokenize L s) \<subseteq> sw" by simp
  show ?case
  proof (cases "msg_text m")
    case (PlainText s)
    with Cons.prems have "set (word_tokenize L s) \<subseteq> sw" by simp
    then have "filter (\<lambda>item. item \<notin> sw) (word_tokenize L s) = []"
      by (auto simp: filter_empty_conv)
    with PlainText Cons.IH [OF rest, of "tc @ [32]"] show ?thesis
      by (simp add: is_plain_def ustr_def replicate_app_Cons_same)
  next
    case (FragmentedText fs)
    with Cons.IH [OF rest, of tc] show ?thesis by (simp add: is_plain_def)
  qed
qed

text \<open>
  C7, as the code has it. When every token of every message with a string text is a
  stopword, the text that the loop of \<^verbatim>\<open>generate_word_cloud\<close> builds is one space for
  each such message, so it is empty only when there is no such message. The function has
  no check for an empty text and no failure of its own: the normalised and reshaped text
  is the text given to \<^verbatim>\<open>WordCloud.generate\<close>, and the run fails exactly when that call
  raises, with the error raised there.
\<close>

theorem generate_word_cloud_all_stopwords:
  assumes "\<forall>msg\<in>set (chat_data self). \<forall>s. msg_text msg = PlainText s \<longrightarrow>
             set (word_tokenize L s) \<subseteq> stop_words self"
  shows "text_content_loop L (stop_words self) (chat_data self) [] =
           replicate (length (filter is_plain (chat_data self))) 32
       \<and> wc_generate_text (fst (generate_word_cloud L self output_dir)) =
           arabic_reshaper_reshape L (normalizer_normalize L
             (replicate (length (filter is_plain (chat_data self))) 32))
       \<and> (\<forall>e. wc_result (fst (generate_word_cloud L self output_dir)) = Inl e \<longleftrightarrow>
              WordCloud_generate L (wc_args (fst (generate_word_cloud L self output_dir)))
                (arabic_reshaper_reshape L (normalizer_normalize L
                   (replicate (length (filter is_plain (chat_data self))) 32))) = Some e)"
proof -
  have loop: "text_content_loop L (stop_words self) (chat_data self) [] =
           replicate (length (filter is_plain (chat_data self))) 32"
    using text_content_loop_all_stopwords [OF assms, of "[]"] by simp
  then have given: "wc_generate_text (fst (generate_word_cloud L self output_dir)) =
           arabic_reshaper_reshape L (normalizer_normalize L
             (replicate (length (filter is_plain (chat_data self))) 32))"
    by (simp add: generate_word_cloud_def Let_def)
  have "wc_result (fst (generate_word_cloud L self output_dir)) = Inl e \<longleftrightarrow>
          WordCloud_generate L (wc_args (fst (generate_word_cloud L self output_dir)))
            (wc_generate_text (fst (generate_word_cloud L self output_dir))) = Some e" for e
    by (simp add: generate_word_cloud_def Let_def split: option.splits)
  with loop given show ?thesis by simp
qed

theorem generate_word_cloud_all_stopwords_witness:
  "set (word_tokenize sample_libs (ustr ''a a'')) \<subseteq> stop_words all_stopwords_chat
   \<and> text_content_loop sample_libs (stop_words all_stopwords_chat)
        (chat_data all_stopwords_chat) [] = [32]
   \<and> wc_result (fst (generate_word_cloud sample_libs all_stopwords_chat [ustr ''out''])) =
        Inl no_words_error"
proof -
  have t: "set (word_tokenize sample_libs (ustr ''a a'')) \<subseteq> stop_words all_stopwords_chat"
    by (simp add: eval_simps all_stopwords_chat_def)
  have h: "\<forall>msg\<in>set (chat_data all_stopwords_chat). \<forall>s. msg_text msg = PlainText s \<longrightarrow>
             set (word_tokenize sample_libs s) \<subseteq> stop_words all_stopwords_chat"
    by (simp add: eval_simps all_stopwords_chat_def)
  have n: "length (filter is_plain (chat_data all_stopwords_chat)) = 1"
    by (simp add: all_stopwords_chat_def init_def is_plain_def)
  have l: "WordCloud_generate sample_libs
             (wc_args (fst (generate_word_cloud sample_libs all_stopwords_chat [ustr ''out''])))
             (arabic_reshaper_reshape sample_libs (normalizer_normalize sample_libs [32])) =
           Some no_words_error"
    by (simp add: sample_libs_def sample_normalize_def sample_WordCloud_generate_def
        py_isspace_def)
  from generate_word_cloud_all_stopwords [OF h, of "[ustr ''out'']"] n l t
  show ?thesis by simp
qed

text \<open>
  The stopword file holds \<^verbatim>\<open>a\<close> and the only message is \<^verbatim>\<open>a a\<close>: the text built by
  the loop is one space, not the empty string, and the failure of the run is the
  \<^verbatim>\<open>ValueError\<close> that the image generator raises when it is called.
\<close>

theorem all_stopwords_counterexample:
  "text_content_loop sample_libs (stop_words all_stopwords_chat)
       (chat_data all_stopwords_chat) [] = ustr '' ''
   \<and> text_content_loop sample_libs (stop_words all_stopwords_chat)
       (chat_data all_stopwords_chat) [] \<noteq> []
   \<and> WordCloud_generate sample_libs
       (wc_args (fst (generate_word_cloud sample_libs all_stopwords_chat [ustr ''out''])))
       (wc_generate_text (fst (generate_word_cloud sample_libs all_stopwords_chat [ustr ''out''])))
       = Some no_words_error
   \<and> wc_result (fst (generate_word_cloud sample_libs all_stopwords_chat [ustr ''out''])) =
       Inl no_words_error"
  by (simp add: eval_simps all_stopwords_chat_def)

text \<open>
  C4 at a concrete input. The stopword is stored normalised, with the Persian kaf; the
  token of the message has the Arabic kaf, and its normal form is the stopword. The
  membership test of line 96 is on the raw token, which is not in the set, so the token
  stays, and after the normalisation of line 100 the text given to the image generator
  holds the stopword itself.
\<close>

theorem stopword_raw_token_kept:
  "stop_words kaf_chat = {[1705, 1607]}
   \<and> word_tokenize sample_libs [1603, 1607] = [[1603, 1607]]
   \<and> normalizer_normalize sample_libs [1603, 1607] = [1705, 1607]
   \<and> text_content_loop sample_libs (stop_words kaf_chat) (chat_data kaf_chat) [] = [32, 1603, 1607]
   \<and> wc_generate_text (fst (generate_word_cloud sample_libs kaf_chat [ustr ''out''])) = [32, 1705, 1607]"
  by (simp add: eval_simps kaf_chat_def)

text \<open>
  C5 at a concrete input. Sender A asks a question in message 1 and replies to it in
  message 2; \<^verbatim>\<open>get_top_users\<close> never reads the sender of the message replied to, and
  credits A with one answer.
\<close>

theorem self_reply_credited:
  "fst (get_top_users sample_libs self_reply_chat 10) = Inr [(Some (ustr ''A''), 1)]"
  by (simp add: eval_simps self_reply_chat_def)

section \<open>The two analyses on one object\<close>

lemma msg_has_question_snd:
  "snd (msg_has_question L m) = m\<lparr>msg_text := PlainText (flat_text m)\<rparr>"
  by (simp add: msg_has_question_def flat_text_def Let_def split: text_value.splits)

lemma get_top_users_snd:
  "snd (get_top_users L self top_n) =
     self\<lparr>chat_data := map (\<lambda>m. m\<lparr>msg_text := PlainText (flat_text m)\<rparr>) (chat_data self)\<rparr>"
proof -
  have "fst (mark_questions L (chat_data self) Map.empty) =
          map (\<lambda>m. m\<lparr>msg_text := PlainText (flat_text m)\<rparr>) (chat_data self)"
    by (simp add: mark_questions_fst msg_has_question_snd)
  then show ?thesis
    by (simp add: get_top_users_def split_beta Let_def split: sum.splits)
qed

lemma flatten_plain:
  "is_plain m \<Longrightarrow> m\<lparr>msg_text := PlainText (flat_text m)\<rparr> = m"
  by (simp add: is_plain_def flat_text_def split: text_value.splits)

text \<open>
  C6, as the code has it. \<^verbatim>\<open>generate_word_cloud\<close> leaves the object as it is, so
  \<^verbatim>\<open>get_top_users\<close> returns the same after it as before it. \<^verbatim>\<open>get_top_users\<close> replaces
  the text of every message by its flat string and changes nothing else; so the word cloud
  made after it is the one made before it when every text of the collection is a string
  already.
\<close>

theorem analyses_order:
  "get_top_users L (snd (generate_word_cloud L self output_dir)) top_n = get_top_users L self top_n
   \<and> snd (get_top_users L self top_n) =
       self\<lparr>chat_data := map (\<lambda>m. m\<lparr>msg_text := PlainText (flat_text m)\<rparr>) (chat_data self)\<rparr>
   \<and> ((\<forall>m\<in>set (chat_data self). is_plain m) \<longrightarrow>
        fst (generate_word_cloud L (snd (get_top_users L self top_n)) output_dir) =
        fst (generate_word_cloud L self output_dir))"
proof -
  have a: "get_top_users L (snd (generate_word_cloud L self output_dir)) top_n =
             get_top_users L self top_n"
    by (simp add: generate_word_cloud_def Let_def)
  have b: "snd (get_top_users L self top_n) =
       self\<lparr>chat_data := map (\<lambda>m. m\<lparr>msg_text := PlainText (flat_text m)\<rparr>) (chat_data self)\<rparr>"
    by (rule get_top_users_snd)
  have c: "fst (generate_word_cloud L (snd (get_top_users L self top_n)) output_dir) =
        fst (generate_word_cloud L self output_dir)"
    if "\<forall>m\<in>set (chat_data self). is_plain m"
  proof -
    from that have "map (\<lambda>m. m\<lparr>msg_text := PlainText (flat_text m)\<rparr>) (chat_data self) =
        chat_data self"
      by (simp add: flatten_plain map_idI)
    with b have "snd (get_top_users L self top_n) = self" by simp
    then show ?thesis by simp
  qed
  from a b c show ?thesis by blast
qed

theorem analyses_order_witness:
  "(is_plain (sample_messages ! 0) \<and> is_plain (sample_messages ! 6))
   \<and> fst (generate_word_cloud sample_libs (snd (get_top_users sample_libs sample_chat 10))
            [ustr ''out'']) =
     fst (generate_word_cloud sample_libs sample_chat [ustr ''out''])
   \<and> wc_generate_text (fst (generate_word_cloud sample_libs sample_chat [ustr ''out''])) =
       ustr '' Are you coming? Yes No Sure Hm With car? On foot''"
proof -
  have h: "\<forall>m\<in>set (chat_data sample_chat). is_plain m"
    by (simp add: sample_chat_def sample_messages_def init_def is_plain_def)
  have p: "is_plain (sample_messages ! 0) \<and> is_plain (sample_messages ! 6)"
    by (simp add: sample_messages_def is_plain_def)
  have e: "wc_generate_text (fst (generate_word_cloud sample_libs sample_chat [ustr ''out''])) =
       ustr '' Are you coming? Yes No Sure Hm With car? On foot''"
    by (simp add: eval_simps sample_chat_def sample_messages_def)
  from analyses_order [of sample_libs sample_chat "[ustr ''out'']" 10] h p e
  show ?thesis by blast
qed

text \<open>
  A chat whose only message has the text \<^verbatim>\<open>["hello"]\<close>: before \<^verbatim>\<open>get_top_users\<close> the
  word cloud skips the message and its text is empty; after it the text of the message is
  the string \<^verbatim>\<open>hello\<close>, and the word cloud is made of it.
\<close>

theorem analyses_order_counterexample:
  "wc_generate_text (fst (generate_word_cloud sample_libs fragmented_chat [ustr ''out''])) = []
   \<and> wc_generate_text (fst (generate_word_cloud sample_libs
        (snd (get_top_users sample_libs fragmented_chat 10)) [ustr ''out''])) = ustr '' hello''
   \<and> fst (generate_word_cloud sample_libs fragmented_chat [ustr ''out'']) \<noteq>
     fst (generate_word_cloud sample_libs
        (snd (get_top_users sample_libs fragmented_chat 10)) [ustr ''out''])"
  by (simp add: eval_simps fragmented_chat_def rebuild_msg_def)

end
